theory Spec2Isabelle
  imports Main "HOL-Library.Word" "HOL-Library.Sublist"
begin

section \<open>JavaScript strings\<close>

text \<open>
  The program is the TypeScript module \<^verbatim>\<open>src/cli.ts\<close> of the repository; line numbers are
  those of \<^verbatim>\<open>src/src/graph.ts\<close>, the file that holds it after the graph module. A JavaScript
  string is a sequence of UTF-16 code units, and \<^verbatim>\<open>length\<close>, \<^verbatim>\<open>slice\<close>, \<^verbatim>\<open>lastIndexOf\<close>
  all count code units. Strings are therefore lists of 16-bit words; \<open>js\<close> embeds an ASCII
  literal. The two caps are JavaScript numbers; the model has the integers.
\<close>

type_synonym jschar = "16 word"

type_synonym jsstring = "jschar list"

definition js :: "string \<Rightarrow> jsstring" where
  "js s = map of_char s"

text \<open>\<^verbatim>\<open>s.startsWith(p)\<close> and \<^verbatim>\<open>s.endsWith(p)\<close>.\<close>

definition startsWith :: "jsstring \<Rightarrow> jsstring \<Rightarrow> bool" where
  "startsWith s p = prefix p s"

definition endsWith :: "jsstring \<Rightarrow> jsstring \<Rightarrow> bool" where
  "endsWith s p = suffix p s"

text \<open>
  \<^verbatim>\<open>s.slice(start, end)\<close>: a negative index counts from the end of the string, every
  index is clamped to \<open>[0, length]\<close>, and the result is empty when the bounds cross.
  \<open>sliceFrom\<close> is the one-argument form \<^verbatim>\<open>s.slice(start)\<close>.
\<close>

definition sliceIndex :: "nat \<Rightarrow> int \<Rightarrow> nat" where
  "sliceIndex len i = (if i < 0 then nat (max (int len + i) 0) else nat (min i (int len)))"

definition slice :: "jsstring \<Rightarrow> int \<Rightarrow> int \<Rightarrow> jsstring" where
  "slice s start end =
     (let from = sliceIndex (length s) start; to = sliceIndex (length s) end
      in take (to - from) (drop from s))"

definition sliceFrom :: "jsstring \<Rightarrow> int \<Rightarrow> jsstring" where
  "sliceFrom s start = drop (sliceIndex (length s) start) s"

text \<open>\<^verbatim>\<open>s.lastIndexOf(c)\<close> for a one-unit search string: the last position of \<open>c\<close>, or \<open>-1\<close>.\<close>

fun lastIndexOf :: "jsstring \<Rightarrow> jschar \<Rightarrow> int" where
  "lastIndexOf [] c = - 1"
| "lastIndexOf (x # xs) c =
     (let r = lastIndexOf xs c
      in if 0 \<le> r then r + 1 else if x = c then 0 else - 1)"

text \<open>
  \<^verbatim>\<open>s.toLowerCase()\<close>. The model has every case mapping whose result holds an ASCII code
  unit: \<open>A\<close>..\<open>Z\<close>, the Kelvin sign U+212A (to \<open>k\<close>) and U+0130 (to \<open>i\<close> followed by U+0307).
  All other code units are left as they are: JavaScript maps them to code units outside
  ASCII, and the only use of the function is a lookup in a set of ASCII strings.
\<close>

definition lowerUnit :: "jschar \<Rightarrow> jsstring" where
  "lowerUnit u =
     (if 0x41 \<le> u \<and> u \<le> 0x5A then [u + 0x20]
      else if u = 0x212A then [0x6B]
      else if u = 0x130 then [0x69, 0x307]
      else [u])"

definition toLowerCase :: "jsstring \<Rightarrow> jsstring" where
  "toLowerCase s = concat (map lowerUnit s)"

text \<open>\<^verbatim>\<open>parts.join(sep)\<close>.\<close>

fun joinWith :: "jsstring \<Rightarrow> jsstring list \<Rightarrow> jsstring" where
  "joinWith sep [] = []"
| "joinWith sep [p] = p"
| "joinWith sep (p # q # ps) = p @ sep @ joinWith sep (q # ps)"

section \<open>The file system\<close>

text \<open>
  The scan only reads the file system, through \<^verbatim>\<open>readdir\<close>, \<^verbatim>\<open>statSync\<close> and
  \<^verbatim>\<open>readFileSync\<close>, each inside a \<^verbatim>\<open>try\<close>. What is found at a path is a \<open>node\<close>:
  \<^item> \<open>File c\<close>: \<^verbatim>\<open>isFile()\<close> holds; \<open>c\<close> is the text \<^verbatim>\<open>readFileSync(p).toString("utf8")\<close>
    gives, \<open>None\<close> when the read throws;
  \<^item> \<open>Directory es\<close>: \<^verbatim>\<open>isDirectory()\<close> holds; \<open>es\<close> is the listing \<^verbatim>\<open>readdir\<close> returns, in
    its order, each name with the node that \<^verbatim>\<open>join(current, name)\<close> resolves to, \<open>None\<close>
    when the listing throws;
  \<^item> \<open>Other c\<close>: \<^verbatim>\<open>statSync\<close> succeeds and the object is neither (a socket, a device);
    \<open>c\<close> is what reading it gives, as for a file;
  \<^item> \<open>Missing\<close>: \<^verbatim>\<open>statSync\<close> throws (a dangling link, a permission error, a name that
    vanished after the listing).
  A directory tree is finite; a link that points back up the tree is followed by
  \<^verbatim>\<open>statSync\<close> until the operating system refuses the path, which is a \<open>Missing\<close> leaf.
\<close>

datatype node =
    File "jsstring option"
  | Directory "(jsstring \<times> node) list option"
  | Other "jsstring option"
  | Missing

datatype stats = IsDirectory | IsFile | IsOther

text \<open>Each call returns \<open>None\<close> where the source's \<^verbatim>\<open>catch\<close> branch runs.\<close>

fun readdir :: "node \<Rightarrow> (jsstring \<times> node) list option" where
  "readdir (Directory es) = es"
| "readdir (File c) = None"
| "readdir (Other c) = None"
| "readdir Missing = None"

fun statSync :: "node \<Rightarrow> stats option" where
  "statSync (File c) = Some IsFile"
| "statSync (Directory es) = Some IsDirectory"
| "statSync (Other c) = Some IsOther"
| "statSync Missing = None"

fun readFileSync :: "node \<Rightarrow> jsstring option" where
  "readFileSync (File c) = c"
| "readFileSync (Directory es) = None"
| "readFileSync (Other c) = c"
| "readFileSync Missing = None"

text \<open>
  A path together with what the file system holds there. The source keeps paths alone on
  its stack and yields paths alone; the model keeps with each path the node that a later
  \<^verbatim>\<open>readdir\<close> or \<^verbatim>\<open>readFileSync\<close> of that path finds.
\<close>

type_synonym located = "jsstring \<times> node"

section \<open>The traverser: \<^verbatim>\<open>walk\<close>\<close>

definition DEFAULT_IGNORES :: "jsstring set" where
  "DEFAULT_IGNORES = set (map js
     [''node_modules'', ''.git'', ''dist'', ''build'', ''.next'', ''.turbo'',
      ''coverage'', ''.venv'', ''venv'', ''out''])"

text \<open>
  The generator's variables. \<open>stack\<close> has the top of the JavaScript array (its last
  element, where \<^verbatim>\<open>push\<close> and \<^verbatim>\<open>pop\<close> work) at the head of the list. \<open>yielded\<close> collects
  the values of \<^verbatim>\<open>yield\<close> in order.
\<close>

record walk_state =
  stack :: "located list"
  count :: int
  yielded :: "located list"

text \<open>
  \<^verbatim>\<open>path.join\<close> belongs to the runtime, so it is a parameter \<open>join\<close> of the traversal.
  The body of \<^verbatim>\<open>for (const name of dirents)\<close>, lines 169 to 185.
\<close>

fun forDirents ::
  "(jsstring \<Rightarrow> jsstring \<Rightarrow> jsstring) \<Rightarrow> int \<Rightarrow> jsstring \<Rightarrow> (jsstring \<times> node) list
     \<Rightarrow> walk_state \<Rightarrow> walk_state" where
  "forDirents join maxFiles current [] st = st"
| "forDirents join maxFiles current ((name, child) # rest) st =
     (if count st \<ge> maxFiles then st
      else if name \<in> DEFAULT_IGNORES then forDirents join maxFiles current rest st
      else
        (let full = join current name in
         case statSync child of
           None \<Rightarrow> forDirents join maxFiles current rest st
         | Some s \<Rightarrow>
             if s = IsDirectory then
               forDirents join maxFiles current rest (st\<lparr>stack := (full, child) # stack st\<rparr>)
             else if s = IsFile then
               forDirents join maxFiles current rest
                 (st\<lparr>count := count st + 1, yielded := yielded st @ [(full, child)]\<rparr>)
             else forDirents join maxFiles current rest st))"

text \<open>The size of a tree, and of the trees still on the stack: what the outer loop consumes.\<close>

fun weight :: "node \<Rightarrow> nat" where
  "weight (Directory (Some es)) = Suc (sum_list (map (\<lambda>e. weight (snd e)) es))"
| "weight (Directory None) = 1"
| "weight (File c) = 1"
| "weight (Other c) = 1"
| "weight Missing = 1"

definition stackWeight :: "located list \<Rightarrow> nat" where
  "stackWeight st = sum_list (map (\<lambda>e. weight (snd e)) st)"

text \<open>The loop \<^verbatim>\<open>while (stack.length > 0 && count < opts.maxFiles)\<close>, lines 161 to 186.\<close>

function whileStack ::
  "(jsstring \<Rightarrow> jsstring \<Rightarrow> jsstring) \<Rightarrow> int \<Rightarrow> walk_state \<Rightarrow> walk_state" where
  "whileStack join maxFiles st =
     (case stack st of
        [] \<Rightarrow> st
      | (current, cnode) # rest \<Rightarrow>
          if count st < maxFiles then
            (case readdir cnode of
               None \<Rightarrow> whileStack join maxFiles (st\<lparr>stack := rest\<rparr>)
             | Some dirents \<Rightarrow>
                 whileStack join maxFiles
                   (forDirents join maxFiles current dirents (st\<lparr>stack := rest\<rparr>)))
          else st)"
  by pat_completeness auto

termination
proof (relation "measure (\<lambda>(join, maxFiles, st). stackWeight (stack st))")
  show "wf (measure (\<lambda>(join, maxFiles, st). stackWeight (stack st)))" by simp
next
  fix join :: "jsstring \<Rightarrow> jsstring \<Rightarrow> jsstring" and maxFiles :: int and st :: walk_state
    and x rest current cnode
  assume "stack st = x # rest" "(current, cnode) = x"
  then show "((join, maxFiles, st\<lparr>stack := rest\<rparr>), join, maxFiles, st)
       \<in> measure (\<lambda>(join, maxFiles, st). stackWeight (stack st))"
    by (cases cnode rule: weight.cases) (auto simp: stackWeight_def)
next
  fix join :: "jsstring \<Rightarrow> jsstring \<Rightarrow> jsstring" and maxFiles :: int and st :: walk_state
    and x rest current cnode dirents
  assume a: "stack st = x # rest" "(current, cnode) = x" "readdir cnode = Some dirents"
  then have c: "cnode = Directory (Some dirents)" by (cases cnode) auto
  have pushed: "stackWeight (stack (forDirents join maxFiles current es s))
      \<le> stackWeight (stack s) + stackWeight es" for es s
  proof (induction es arbitrary: s)
    case Nil
    then show ?case by simp
  next
    case (Cons e es)
    obtain name child where e: "e = (name, child)" by (cases e)
    show ?case
      unfolding e
      apply (simp add: Let_def split: option.split)
      using Cons.IH [of s] Cons.IH [of "s\<lparr>stack := (join current name, child) # stack s\<rparr>"]
        Cons.IH [of "s\<lparr>count := count s + 1, yielded := yielded s @ [(join current name, child)]\<rparr>"]
      by (auto simp: stackWeight_def e)
  qed
  have "stackWeight (stack (forDirents join maxFiles current dirents (st\<lparr>stack := rest\<rparr>)))
      \<le> stackWeight rest + stackWeight dirents"
    using pushed [of dirents "st\<lparr>stack := rest\<rparr>"] by simp
  also have "\<dots> < stackWeight (stack st)"
    using a c by (auto simp: stackWeight_def)
  finally show "((join, maxFiles, forDirents join maxFiles current dirents (st\<lparr>stack := rest\<rparr>)), join, maxFiles, st)
       \<in> measure (\<lambda>(join, maxFiles, st). stackWeight (stack st))"
    by simp
qed

declare whileStack.simps [simp del]

text \<open>The generator \<^verbatim>\<open>walk(dir, { maxFiles })\<close>: the sequence of its yields.\<close>

definition walk ::
  "(jsstring \<Rightarrow> jsstring \<Rightarrow> jsstring) \<Rightarrow> jsstring \<Rightarrow> node \<Rightarrow> int \<Rightarrow> located list" where
  "walk join dir root maxFiles =
     yielded (whileStack join maxFiles \<lparr>stack = [(dir, root)], count = 0, yielded = []\<rparr>)"

section \<open>The sampler: \<^verbatim>\<open>isBinaryByExt\<close> and \<^verbatim>\<open>readSample\<close>\<close>

definition BINARY_EXT :: "jsstring set" where
  "BINARY_EXT = set (map js
     [''.png'', ''.jpg'', ''.jpeg'', ''.gif'', ''.webp'', ''.ico'', ''.pdf'', ''.zip'',
      ''.gz'', ''.tar'', ''.rar'', ''.7z'', ''.exe'', ''.dll'', ''.bin''])"

definition isBinaryByExt :: "jsstring \<Rightarrow> bool" where
  "isBinaryByExt path =
     (let i = lastIndexOf path (of_char CHR ''.'')
      in if i < 0 then False
         else toLowerCase (sliceFrom path i) \<in> BINARY_EXT)"

text \<open>
  \<^verbatim>\<open>readSample(file, maxChars)\<close>; \<open>None\<close> is the source's \<^verbatim>\<open>null\<close>. The file is the path
  that \<^verbatim>\<open>walk\<close> yielded, with the node found there.
\<close>

definition readSample :: "located \<Rightarrow> int \<Rightarrow> jsstring option" where
  "readSample file maxChars =
     (if isBinaryByExt (fst file) then None
      else case readFileSync (snd file) of
             None \<Rightarrow> None
           | Some text \<Rightarrow> Some (slice text 0 maxChars))"

section \<open>The assembler: \<^verbatim>\<open>summarizeRepo\<close>\<close>

text \<open>The expression of line 215 that computes \<^verbatim>\<open>rel\<close>.\<close>

definition relPath :: "jsstring \<Rightarrow> jsstring \<Rightarrow> jsstring" where
  "relPath dir file =
     (if startsWith file dir then
        sliceFrom file
          (int (length dir) + (if endsWith dir (js ''/'') \<or> endsWith dir [0x5C] then 0 else 1))
      else file)"

text \<open>The template literal of line 216.\<close>

definition excerptBlock :: "jsstring \<Rightarrow> jsstring \<Rightarrow> jsstring" where
  "excerptBlock rel sample =
     js ''\<newline>--- BEGIN FILE: '' @ rel @ js '' ---\<newline>'' @ sample
       @ js ''\<newline>--- END FILE: '' @ rel @ js '' ---''"

record summary_state =
  parts :: "jsstring list"
  included :: int

text \<open>
  The loop \<^verbatim>\<open>for await (const file of walk(...))\<close>, lines 210 to 217, over the sequence of
  yields; \<^verbatim>\<open>break\<close> leaves the rest of the sequence unused.
\<close>

fun forFiles ::
  "jsstring \<Rightarrow> int \<Rightarrow> int \<Rightarrow> located list \<Rightarrow> summary_state \<Rightarrow> summary_state" where
  "forFiles dir maxFiles maxChars [] st = st"
| "forFiles dir maxFiles maxChars (file # rest) st =
     (if included st \<ge> maxFiles then st
      else case readSample file maxChars of
             None \<Rightarrow> forFiles dir maxFiles maxChars rest st
           | Some sample \<Rightarrow>
               (let rel = relPath dir (fst file)
                in forFiles dir maxFiles maxChars rest
                     (st\<lparr>included := included st + 1,
                         parts := parts st @ [excerptBlock rel sample]\<rparr>)))"

text \<open>The line pushed when \<^verbatim>\<open>included === 0\<close> (line 218).\<close>

definition NO_FILES :: jsstring where
  "NO_FILES = js ''No readable source files found.''"

text \<open>The array \<^verbatim>\<open>parts\<close> as it stands at line 219, and the string returned.\<close>

definition summarizeParts ::
  "(jsstring \<Rightarrow> jsstring \<Rightarrow> jsstring) \<Rightarrow> jsstring \<Rightarrow> node \<Rightarrow> int \<Rightarrow> int \<Rightarrow> jsstring list" where
  "summarizeParts join dir root maxFiles maxChars =
     (let st = forFiles dir maxFiles maxChars (walk join dir root maxFiles)
                 \<lparr>parts = [js ''Root: '' @ dir], included = 0\<rparr>
      in if included st = 0 then parts st @ [NO_FILES] else parts st)"

definition summarizeRepo ::
  "(jsstring \<Rightarrow> jsstring \<Rightarrow> jsstring) \<Rightarrow> jsstring \<Rightarrow> node \<Rightarrow> int \<Rightarrow> int \<Rightarrow> jsstring" where
  "summarizeRepo join dir root maxFiles maxChars =
     joinWith (js ''\<newline>'') (summarizeParts join dir root maxFiles maxChars)"

section \<open>Vocabulary of the specification\<close>

text \<open>
  The definitions of this section are not code of the program: they give the words of the
  specification a meaning, so that the claims can be stated about the functions above.
\<close>

text \<open>
  What \<^verbatim>\<open>path.join(current, name)\<close> returns on POSIX when \<open>current\<close> is a normalised path
  that does not end in a separator and \<open>name\<close> is a name from a listing. Used for
  concrete trees only; the theorems hold for every \<open>join\<close>.
\<close>

definition posixJoin :: "jsstring \<Rightarrow> jsstring \<Rightarrow> jsstring" where
  "posixJoin current name = current @ js ''/'' @ name"

text \<open>The segments of a path: the pieces between its \<open>/\<close> separators.\<close>

fun splitOn :: "jschar \<Rightarrow> jsstring \<Rightarrow> jsstring list" where
  "splitOn c [] = [[]]"
| "splitOn c (x # xs) =
     (if x = c then [] # splitOn c xs
      else case splitOn c xs of
             [] \<Rightarrow> [[x]]
           | s # ss \<Rightarrow> (x # s) # ss)"


text \<open>The basename of a path: what follows its last \<open>/\<close> (the whole path when it has none).\<close>

definition basename :: "jsstring \<Rightarrow> jsstring" where
  "basename path = sliceFrom path (lastIndexOf path (of_char CHR ''/'') + 1)"

text \<open>
  The specification's binary rule: the final extension is the substring from the last
  \<open>.\<close> of the basename (BinaryExtensionSet holds its members with the leading dot),
  lowercased and looked up in the set. A basename without \<open>.\<close> has no extension.
\<close>

definition extension :: "jsstring \<Rightarrow> jsstring option" where
  "extension path =
     (let b = basename path; i = lastIndexOf b (of_char CHR ''.'')
      in if i < 0 then None else Some (sliceFrom b i))"

definition binaryBySpec :: "jsstring \<Rightarrow> bool" where
  "binaryBySpec path =
     (case extension path of
        None \<Rightarrow> False
      | Some e \<Rightarrow> toLowerCase e \<in> BINARY_EXT)"

text \<open>
  Truncation counted in code points, as the specification words it: a high surrogate
  followed by a low surrogate is one character of two code units, never split.
\<close>

definition isHighSurrogate :: "jschar \<Rightarrow> bool" where
  "isHighSurrogate u = (0xD800 \<le> u \<and> u \<le> 0xDBFF)"

definition isLowSurrogate :: "jschar \<Rightarrow> bool" where
  "isLowSurrogate u = (0xDC00 \<le> u \<and> u \<le> 0xDFFF)"

fun takeCodePoints :: "nat \<Rightarrow> jsstring \<Rightarrow> jsstring" where
  "takeCodePoints 0 s = []"
| "takeCodePoints (Suc n) [] = []"
| "takeCodePoints (Suc n) [u] = [u]"
| "takeCodePoints (Suc n) (u # v # s) =
     (if isHighSurrogate u \<and> isLowSurrogate v then u # v # takeCodePoints n s
      else u # takeCodePoints n (v # s))"

text \<open>
  The regular files among the entries of one listing that the ignore filter lets through,
  in listing order, with their full paths.
\<close>

definition entryFiles ::
  "(jsstring \<Rightarrow> jsstring \<Rightarrow> jsstring) \<Rightarrow> jsstring \<Rightarrow> (jsstring \<times> node) list \<Rightarrow> located list" where
  "entryFiles join current es =
     map (\<lambda>e. (join current (fst e), snd e))
       (filter (\<lambda>e. fst e \<notin> DEFAULT_IGNORES \<and> statSync (snd e) = Some IsFile) es)"

text \<open>
  The excerpts of a scan (FileExcerpt in the specification): for each yielded file whose
  sample is not \<^verbatim>\<open>null\<close>, the relative path and the sample text, in order.
\<close>

definition excerptOf :: "jsstring \<Rightarrow> int \<Rightarrow> located \<Rightarrow> (jsstring \<times> jsstring) option" where
  "excerptOf dir maxChars file =
     map_option (\<lambda>sample. (relPath dir (fst file), sample)) (readSample file maxChars)"

definition excerpts ::
  "(jsstring \<Rightarrow> jsstring \<Rightarrow> jsstring) \<Rightarrow> jsstring \<Rightarrow> node \<Rightarrow> int \<Rightarrow> int
     \<Rightarrow> (jsstring \<times> jsstring) list" where
  "excerpts join dir root maxFiles maxChars =
     List.map_filter (excerptOf dir maxChars) (walk join dir root maxFiles)"

definition blockOf :: "jsstring \<times> jsstring \<Rightarrow> jsstring" where
  "blockOf e = excerptBlock (fst e) (snd e)"




text \<open>The lines of a text: the pieces between its line feeds.\<close>

definition linesOf :: "jsstring \<Rightarrow> jsstring list" where
  "linesOf s = splitOn 0x0A s"


section \<open>Relations used in the proofs\<close>

text \<open>
  How a later state of the generator relates to an earlier one: the yields only grow, the
  counter grows by the number of new yields, and it does not pass the cap.
\<close>

definition walkOk :: "int \<Rightarrow> walk_state \<Rightarrow> walk_state \<Rightarrow> bool" where
  "walkOk maxFiles st st' \<longleftrightarrow>
     prefix (yielded st) (yielded st') \<and>
     count st' = count st + int (length (yielded st')) - int (length (yielded st)) \<and>
     count st' \<le> max (count st) maxFiles"





section \<open>Concrete trees\<close>

text \<open>
  The scenario of the specification (\<^verbatim>\<open>a.txt\<close> holding \<^verbatim>\<open>hello\<close>, \<^verbatim>\<open>img.png\<close>, an ignored
  \<^verbatim>\<open>node_modules/x.js\<close>), with a subdirectory that has a readable file, an unreadable
  file and a name that cannot be classified, and a directory that cannot be listed.
\<close>

definition demoTree :: node where
  "demoTree = Directory (Some
     [(js ''a.txt'', File (Some (js ''hello''))),
      (js ''img.png'', File (Some (js ''PNG''))),
      (js ''node_modules'', Directory (Some [(js ''x.js'', File (Some (js ''1'')))])),
      (js ''sub'', Directory (Some
         [(js ''b.ts'', File (Some (js ''let b''))),
          (js ''gone'', Missing),
          (js ''secret.txt'', File None)])),
      (js ''locked'', Directory None)])"

text \<open>A tree with no eligible file: a picture, an ignored directory, an unreadable file.\<close>

definition binaryOnlyTree :: node where
  "binaryOnlyTree = Directory (Some
     [(js ''logo.png'', File (Some (js ''PNG''))),
      (js ''dist'', Directory (Some [(js ''main.js'', File (Some (js ''1'')))])),
      (js ''.env'', File None)])"

text \<open>The entries of a root directory that is itself named \<^verbatim>\<open>build\<close>.\<close>

definition buildRootEntries :: "(jsstring \<times> node) list" where
  "buildRootEntries =
     [(js ''main.ts'', File (Some (js ''let x''))),
      (js ''out'', Directory (Some [(js ''main.js'', File (Some (js ''var x'')))])),
      (js ''lib'', Directory (Some [(js ''util.ts'', File (Some (js ''let u'')))]))]"

text \<open>A listing with a picture before a readable text file.\<close>

definition budgetTree :: node where
  "budgetTree = Directory (Some
     [(js ''img.png'', File (Some (js ''PNG''))),
      (js ''notes.txt'', File (Some (js ''hello'')))])"

text \<open>A file whose own text is the fixed line of an empty scan.\<close>

definition sentinelTree :: node where
  "sentinelTree = Directory (Some
     [(js ''note.txt'', File (Some (js ''No readable source files found.'')))])"


section \<open>Facts about strings and the binary rule\<close>

lemma lastIndexOf_absent: "c \<notin> set s \<Longrightarrow> lastIndexOf s c = - 1"
  by (induction s) (auto simp: Let_def)

lemma lastIndexOf_last: "c \<notin> set b \<Longrightarrow> lastIndexOf (a @ c # b) c = int (length a)"
  by (induction a) (auto simp: Let_def lastIndexOf_absent)

lemma lastIndexOf_neg_iff: "lastIndexOf s c < 0 \<longleftrightarrow> c \<notin> set s"
proof
  assume "lastIndexOf s c < 0"
  show "c \<notin> set s"
  proof
    assume "c \<in> set s"
    then obtain a b where "s = a @ c # b" "c \<notin> set b" using split_list_last by fastforce
    then have "lastIndexOf s c = int (length a)" by (simp add: lastIndexOf_last)
    with \<open>lastIndexOf s c < 0\<close> show False by simp
  qed
next
  assume "c \<notin> set s"
  then show "lastIndexOf s c < 0" by (simp add: lastIndexOf_absent)
qed

lemma sliceFrom_nat: "sliceFrom s (int k) = drop k s"
  by (simp add: sliceFrom_def sliceIndex_def min_def)

lemma sliceFrom_append: "sliceFrom (a @ b) (int (length a)) = b"
  by (simp add: sliceFrom_nat)

lemma slice_take: "0 \<le> n \<Longrightarrow> slice s 0 n = take (nat n) s"
  by (simp add: slice_def sliceIndex_def Let_def min_def)

lemma slice_zero: "slice s 0 0 = []"
  by (simp add: slice_take)

text \<open>The rule of the code on a path split at its last dot.\<close>

lemma isBinaryByExt_split:
  "of_char CHR ''.'' \<notin> set b \<Longrightarrow>
   isBinaryByExt (a @ of_char CHR ''.'' # b) \<longleftrightarrow> toLowerCase (of_char CHR ''.'' # b) \<in> BINARY_EXT"
  by (simp add: isBinaryByExt_def lastIndexOf_last sliceFrom_append Let_def del: of_char_Char)

lemma isBinaryByExt_nodot: "of_char CHR ''.'' \<notin> set path \<Longrightarrow> \<not> isBinaryByExt path"
  by (simp add: isBinaryByExt_def lastIndexOf_absent Let_def del: of_char_Char)

lemma basename_split:
  assumes "of_char CHR ''/'' \<notin> set b"
  shows "basename (a @ of_char CHR ''/'' # b) = b"
proof -
  have l: "lastIndexOf (a @ of_char CHR ''/'' # b) (of_char CHR ''/'') = int (length a)"
    using assms by (rule lastIndexOf_last)
  have e1: "int (length a) + 1 = int (length (a @ [of_char CHR ''/'' :: jschar]))"
    by (simp del: of_char_Char)
  have e2: "a @ of_char CHR ''/'' # b = (a @ [of_char CHR ''/'']) @ b"
    by (simp del: of_char_Char)
  show ?thesis
    unfolding basename_def l e1 unfolding e2 by (rule sliceFrom_append)
qed

lemma basename_noslash: "of_char CHR ''/'' \<notin> set path \<Longrightarrow> basename path = path"
  by (simp add: basename_def lastIndexOf_absent sliceFrom_def sliceIndex_def del: of_char_Char)

lemma binaryBySpec_split:
  "of_char CHR ''.'' \<notin> set b \<Longrightarrow> basename path = a @ of_char CHR ''.'' # b \<Longrightarrow>
   binaryBySpec path \<longleftrightarrow> toLowerCase (of_char CHR ''.'' # b) \<in> BINARY_EXT"
  by (simp add: binaryBySpec_def extension_def lastIndexOf_last sliceFrom_append Let_def del: of_char_Char)

lemma binaryBySpec_nodot: "of_char CHR ''.'' \<notin> set (basename path) \<Longrightarrow> \<not> binaryBySpec path"
  by (simp add: binaryBySpec_def extension_def lastIndexOf_absent Let_def del: of_char_Char)

lemma extension_nodot: "of_char CHR ''.'' \<notin> set (basename path) \<Longrightarrow> extension path = None"
  by (simp add: extension_def lastIndexOf_absent Let_def del: of_char_Char)

text \<open>
  Lowercasing keeps a \<open>/\<close>, and no member of the extension set holds one: a last dot that
  stands in a directory name never makes a path binary.
\<close>

lemma set_toLowerCase: "set (toLowerCase s) = (\<Union>u \<in> set s. set (lowerUnit u))"
  by (simp add: toLowerCase_def)

lemma slash_toLowerCase: "of_char CHR ''/'' \<in> set s \<Longrightarrow> of_char CHR ''/'' \<in> set (toLowerCase s)"
proof -
  have "lowerUnit (of_char CHR ''/'') = [of_char CHR ''/'']" by (simp add: lowerUnit_def)
  then show "of_char CHR ''/'' \<in> set s \<Longrightarrow> of_char CHR ''/'' \<in> set (toLowerCase s)"
    unfolding set_toLowerCase by (metis UN_I list.set_intros(1))
qed

lemma BINARY_EXT_noslash: "e \<in> BINARY_EXT \<Longrightarrow> of_char CHR ''/'' \<notin> set e"
  by (auto simp: BINARY_EXT_def js_def)

text \<open>The code looks for the last dot of the whole path; the result is that of the basename.\<close>

lemma isBinaryByExt_spec: "isBinaryByExt path = binaryBySpec path"
proof (cases "of_char CHR ''/'' \<in> set path")
  case False
  then have b: "basename path = path" by (rule basename_noslash)
  show ?thesis
  proof (cases "of_char CHR ''.'' \<in> set path")
    case True
    then obtain p1 p2 where p: "path = p1 @ of_char CHR ''.'' # p2" "of_char CHR ''.'' \<notin> set p2"
      using split_list_last by fastforce
    show ?thesis
      using isBinaryByExt_split [OF p(2), of p1] binaryBySpec_split [OF p(2), of path p1] b p(1)
      by (simp del: of_char_Char)
  next
    case False
    then show ?thesis using isBinaryByExt_nodot [of path] binaryBySpec_nodot [of path] b
      by (simp del: of_char_Char)
  qed
next
  case True
  then obtain a b where ab: "path = a @ of_char CHR ''/'' # b" "of_char CHR ''/'' \<notin> set b"
    using split_list_last by fastforce
  then have bn: "basename path = b" by (simp only: basename_split [OF ab(2)])
  show ?thesis
  proof (cases "of_char CHR ''.'' \<in> set b")
    case True
    then obtain b1 b2 where b: "b = b1 @ of_char CHR ''.'' # b2" "of_char CHR ''.'' \<notin> set b2"
      using split_list_last by fastforce
    have "path = (a @ of_char CHR ''/'' # b1) @ of_char CHR ''.'' # b2" using ab b by simp
    then show ?thesis
      using isBinaryByExt_split [OF b(2), of "a @ of_char CHR ''/'' # b1"]
        binaryBySpec_split [OF b(2), of path b1] bn b(1)
      by (simp del: of_char_Char)
  next
    case nodot: False
    then have spec: "\<not> binaryBySpec path" using binaryBySpec_nodot [of path] bn by (simp del: of_char_Char)
    show ?thesis
    proof (cases "of_char CHR ''.'' \<in> set path")
      case False
      then show ?thesis using spec isBinaryByExt_nodot [of path] by (simp del: of_char_Char)
    next
      case True
      then obtain p1 p2 where p: "path = p1 @ of_char CHR ''.'' # p2" "of_char CHR ''.'' \<notin> set p2"
        using split_list_last by fastforce
      have ne: "(of_char CHR ''/'' :: jschar) \<noteq> of_char CHR ''.''" by simp
      have "a @ of_char CHR ''/'' # b = p1 @ of_char CHR ''.'' # p2" using ab p by simp
      then obtain us where us: "(a = p1 @ us \<and> us @ of_char CHR ''/'' # b = of_char CHR ''.'' # p2)
          \<or> (a @ us = p1 \<and> of_char CHR ''/'' # b = us @ of_char CHR ''.'' # p2)"
        unfolding append_eq_append_conv2 by blast
      have "of_char CHR ''/'' \<in> set p2"
      proof (cases us)
        case Nil
        then show ?thesis using us ne by (auto simp del: of_char_Char)
      next
        case (Cons u us')
        from us show ?thesis
        proof
          assume "a = p1 @ us \<and> us @ of_char CHR ''/'' # b = of_char CHR ''.'' # p2"
          then have "p2 = us' @ of_char CHR ''/'' # b" using Cons by (simp del: of_char_Char)
          then show ?thesis by (simp del: of_char_Char)
        next
          assume "a @ us = p1 \<and> of_char CHR ''/'' # b = us @ of_char CHR ''.'' # p2"
          then have "b = us' @ of_char CHR ''.'' # p2" using Cons by (simp del: of_char_Char)
          then show ?thesis using nodot by (simp del: of_char_Char)
        qed
      qed
      then have "of_char CHR ''/'' \<in> set (toLowerCase (of_char CHR ''.'' # p2))"
        using slash_toLowerCase [of "of_char CHR ''.'' # p2"] by (simp del: of_char_Char)
      then have "toLowerCase (of_char CHR ''.'' # p2) \<notin> BINARY_EXT"
        using BINARY_EXT_noslash by blast
      then have "\<not> isBinaryByExt path"
        using isBinaryByExt_split [OF p(2), of p1] p(1) by (simp del: of_char_Char)
      then show ?thesis using spec by simp
    qed
  qed
qed






lemma takeCodePoints_take:
  "list_all (\<lambda>u. \<not> isHighSurrogate u) s \<Longrightarrow> takeCodePoints n s = take n s"
  by (induction n s rule: takeCodePoints.induct) auto






lemma length_map_filter_le: "length (List.map_filter f xs) \<le> length xs"
  by (induction xs) (auto simp: map_filter_simps split: option.split)

lemma set_map_filter: "set (List.map_filter f xs) = {y. \<exists>x \<in> set xs. f x = Some y}"
  by (induction xs) (auto simp: map_filter_simps split: option.split)

lemma map_filter_filter:
  "(\<And>x. x \<in> set xs \<Longrightarrow> \<not> P x \<Longrightarrow> f x = None) \<Longrightarrow>
     List.map_filter f (filter P xs) = List.map_filter f xs"
  by (induction xs) (auto split: option.split)

section \<open>Facts about the traverser\<close>

text \<open>Both loops leave the state as it is once the cap is reached.\<close>

lemma forDirents_break: "maxFiles \<le> count st \<Longrightarrow> forDirents join maxFiles current es st = st"
  by (cases es) auto

lemma whileStack_break: "maxFiles \<le> count st \<Longrightarrow> whileStack join maxFiles st = st"
  by (subst whileStack.simps) (auto split: list.split)

text \<open>
  One listing yields its eligible regular files in order, as many as the cap still allows,
  and counts each of them.
\<close>

lemma forDirents_yielded:
  "yielded (forDirents join maxFiles current es st)
     = yielded st @ take (nat (maxFiles - count st)) (entryFiles join current es)
   \<and> count (forDirents join maxFiles current es st)
     = count st + int (length (take (nat (maxFiles - count st)) (entryFiles join current es)))"
proof (induction es arbitrary: st)
  case Nil
  then show ?case by (simp add: entryFiles_def)
next
  case (Cons e es)
  obtain name child where e: "e = (name, child)" by (cases e)
  show ?case
  proof (cases "maxFiles \<le> count st")
    case True
    then show ?thesis by (simp add: forDirents_break)
  next
    case False
    then have n: "nat (maxFiles - count st) = Suc (nat (maxFiles - (count st + 1)))" by simp
    show ?thesis
    proof (cases "name \<in> DEFAULT_IGNORES \<or> statSync child \<noteq> Some IsFile")
      case True
      then have "entryFiles join current (e # es) = entryFiles join current es"
        by (auto simp: entryFiles_def e)
      moreover have "yielded (forDirents join maxFiles current (e # es) st)
          = yielded (forDirents join maxFiles current es st) \<and>
        count (forDirents join maxFiles current (e # es) st)
          = count (forDirents join maxFiles current es st)"
        using True False Cons.IH [of "st\<lparr>stack := (join current name, child) # stack st\<rparr>"] Cons.IH [of st]
        by (auto simp: e Let_def split: option.split)
      ultimately show ?thesis using Cons.IH [of st] by simp
    next
      case f: False
      then have "entryFiles join current (e # es) = (join current name, child) # entryFiles join current es"
        by (auto simp: entryFiles_def e)
      then show ?thesis
        using f False n
          Cons.IH [of "st\<lparr>count := count st + 1, yielded := yielded st @ [(join current name, child)]\<rparr>"]
        by (simp add: e Let_def)
    qed
  qed
qed

lemma walkOk_forDirents: "walkOk maxFiles st (forDirents join maxFiles current es st)"
  using forDirents_yielded [of join maxFiles current es st]
  by (auto simp: walkOk_def)

lemma walkOk_refl: "walkOk maxFiles st st"
  by (simp add: walkOk_def)

lemma walkOk_trans: "walkOk m a b \<Longrightarrow> walkOk m b c \<Longrightarrow> walkOk m a c"
  by (auto simp: walkOk_def)

lemma walkOk_pop: "walkOk m (st\<lparr>stack := s\<rparr>) st' \<Longrightarrow> walkOk m st st'"
  by (simp add: walkOk_def)

lemma walkOk_whileStack: "walkOk maxFiles st (whileStack join maxFiles st)"
proof (induction join maxFiles st rule: whileStack.induct)
  case (1 join maxFiles st)
  show ?case
  proof (cases "stack st")
    case Nil
    then show ?thesis by (subst whileStack.simps) (simp add: walkOk_refl)
  next
    case (Cons x rest)
    obtain current cnode where x: "x = (current, cnode)" by (cases x)
    show ?thesis
    proof (cases "count st < maxFiles")
      case False
      then show ?thesis by (simp add: whileStack_break walkOk_refl)
    next
      case True
      show ?thesis
      proof (cases "readdir cnode")
        case None
        have "walkOk maxFiles (st\<lparr>stack := rest\<rparr>) (whileStack join maxFiles (st\<lparr>stack := rest\<rparr>))"
          using "1.IH"(1) Cons x True None by simp
        then show ?thesis
          using Cons x True None by (subst whileStack.simps) (simp add: walkOk_pop)
      next
        case (Some dirents)
        let ?st1 = "forDirents join maxFiles current dirents (st\<lparr>stack := rest\<rparr>)"
        have "walkOk maxFiles ?st1 (whileStack join maxFiles ?st1)"
          using "1.IH"(2) Cons x True Some by simp
        then have "walkOk maxFiles (st\<lparr>stack := rest\<rparr>) (whileStack join maxFiles ?st1)"
          using walkOk_forDirents walkOk_trans by blast
        then show ?thesis
          using Cons x True Some by (subst whileStack.simps) (simp add: walkOk_pop)
      qed
    qed
  qed
qed

lemma walk_length: "int (length (walk join dir root maxFiles)) \<le> max 0 maxFiles"
  using walkOk_whileStack [of maxFiles "\<lparr>stack = [(dir, root)], count = 0, yielded = []\<rparr>" join]
  by (simp add: walkOk_def walk_def)

lemma walk_nil: "maxFiles \<le> 0 \<Longrightarrow> walk join dir root maxFiles = []"
  by (simp add: walk_def whileStack_break)

lemma walk_root_listing:
  "prefix (take (nat maxFiles) (entryFiles join dir es))
     (walk join dir (Directory (Some es)) maxFiles)"
proof (cases "0 < maxFiles")
  case False
  then show ?thesis by simp
next
  case True
  let ?st1 = "forDirents join maxFiles dir es \<lparr>stack = [], count = 0, yielded = []\<rparr>"
  have "whileStack join maxFiles \<lparr>stack = [(dir, Directory (Some es))], count = 0, yielded = []\<rparr>
      = whileStack join maxFiles ?st1"
    using True by (subst whileStack.simps) simp
  moreover have "yielded ?st1 = take (nat maxFiles) (entryFiles join dir es)"
    using forDirents_yielded [of join maxFiles dir es "\<lparr>stack = [], count = 0, yielded = []\<rparr>"]
    by simp
  moreover have "prefix (yielded ?st1) (yielded (whileStack join maxFiles ?st1))"
    using walkOk_whileStack [of maxFiles ?st1 join] by (simp add: walkOk_def)
  ultimately show ?thesis by (simp add: walk_def)
qed


lemma whileStack_unlistable:
  "readdir cnode = None \<Longrightarrow> count st < maxFiles \<Longrightarrow> stack st = (current, cnode) # rest \<Longrightarrow>
     whileStack join maxFiles st = whileStack join maxFiles (st\<lparr>stack := rest\<rparr>)"
  by (subst whileStack.simps) simp

lemma whileStack_empty_listing:
  "count st < maxFiles \<Longrightarrow> stack st = (current, Directory (Some [])) # rest \<Longrightarrow>
     whileStack join maxFiles st = whileStack join maxFiles (st\<lparr>stack := rest\<rparr>)"
  by (subst whileStack.simps) simp

lemma whileStack_unlistable_as_empty:
  "yielded (whileStack join maxFiles (st\<lparr>stack := (current, Directory None) # rest\<rparr>))
     = yielded (whileStack join maxFiles (st\<lparr>stack := (current, Directory (Some [])) # rest\<rparr>))"
proof (cases "count st < maxFiles")
  case True
  have "whileStack join maxFiles (st\<lparr>stack := (current, Directory None) # rest\<rparr>)
       = whileStack join maxFiles (st\<lparr>stack := rest\<rparr>)"
    using True whileStack_unlistable [of "Directory None" "st\<lparr>stack := (current, Directory None) # rest\<rparr>"
        maxFiles current rest join]
    by simp
  moreover have "whileStack join maxFiles (st\<lparr>stack := (current, Directory (Some [])) # rest\<rparr>)
       = whileStack join maxFiles (st\<lparr>stack := rest\<rparr>)"
    using True whileStack_empty_listing [of "st\<lparr>stack := (current, Directory (Some [])) # rest\<rparr>"
        maxFiles current rest join]
    by simp
  ultimately show ?thesis by simp
next
  case False
  then show ?thesis by (simp add: whileStack_break)
qed

lemma forDirents_unclassified:
  "statSync child = None \<Longrightarrow>
     forDirents join maxFiles current ((name, child) # es) st = forDirents join maxFiles current es st"
  by (cases "maxFiles \<le> count st") (simp_all add: forDirents_break)







section \<open>Facts about the sampler and the assembler\<close>

lemma readSample_binary: "isBinaryByExt path \<Longrightarrow> readSample (path, node) maxChars = None"
  by (simp add: readSample_def)

lemma readSample_unreadable: "readFileSync (snd f) = None \<Longrightarrow> readSample f maxChars = None"
  by (simp add: readSample_def)

lemma readSample_length:
  "0 \<le> maxChars \<Longrightarrow> readSample f maxChars = Some sample \<Longrightarrow> int (length sample) \<le> maxChars"
  by (auto simp: readSample_def slice_take split: if_splits option.splits)

lemma readSample_zero: "readSample f 0 = Some sample \<Longrightarrow> sample = []"
  by (auto simp: readSample_def slice_zero split: if_splits option.splits)

text \<open>
  While the number of files left cannot reach the cap, the loop of \<^verbatim>\<open>summarizeRepo\<close> never
  takes its \<^verbatim>\<open>break\<close>: it appends one block for each file with a sample.
\<close>

lemma forFiles_all:
  "included st + int (length files) \<le> maxFiles \<Longrightarrow>
   forFiles dir maxFiles maxChars files st =
     st\<lparr>included := included st + int (length (List.map_filter (excerptOf dir maxChars) files)),
        parts := parts st @ map blockOf (List.map_filter (excerptOf dir maxChars) files)\<rparr>"
proof (induction files arbitrary: st)
  case Nil
  then show ?case by simp
next
  case (Cons f fs)
  then have lt: "\<not> maxFiles \<le> included st" by simp
  show ?case
  proof (cases "readSample f maxChars")
    case None
    then have "excerptOf dir maxChars f = None" by (simp add: excerptOf_def)
    then show ?thesis
      using None lt Cons.IH [of st] Cons.prems by simp
  next
    case (Some sample)
    let ?st1 = "st\<lparr>included := included st + 1,
       parts := parts st @ [excerptBlock (relPath dir (fst f)) sample]\<rparr>"
    have e: "excerptOf dir maxChars f = Some (relPath dir (fst f), sample)"
      using Some by (simp add: excerptOf_def)
    have "included ?st1 + int (length fs) \<le> maxFiles" using Cons.prems by simp
    from Cons.IH [OF this] show ?thesis
      using Some lt e by (simp add: Let_def blockOf_def)
  qed
qed

text \<open>The array \<^verbatim>\<open>parts\<close>: the header, one block for each excerpt, or else the fixed line.\<close>

lemma summarizeParts_eq:
  "summarizeParts join dir root maxFiles maxChars =
     (js ''Root: '' @ dir) # map blockOf (excerpts join dir root maxFiles maxChars)
       @ (if excerpts join dir root maxFiles maxChars = [] then [NO_FILES] else [])"
proof -
  let ?st0 = "\<lparr>parts = [js ''Root: '' @ dir], included = 0\<rparr>"
  have "included ?st0 + int (length (walk join dir root maxFiles)) \<le> maxFiles
      \<or> walk join dir root maxFiles = []"
    using walk_length [of join dir root maxFiles] walk_nil [of maxFiles join dir root]
    by (cases "maxFiles \<le> 0") auto
  then have "forFiles dir maxFiles maxChars (walk join dir root maxFiles) ?st0 =
     ?st0\<lparr>included := int (length (excerpts join dir root maxFiles maxChars)),
        parts := (js ''Root: '' @ dir) # map blockOf (excerpts join dir root maxFiles maxChars)\<rparr>"
    using forFiles_all [of ?st0 "walk join dir root maxFiles" maxFiles dir maxChars]
    by (auto simp: excerpts_def)
  then show ?thesis
    by (simp add: summarizeParts_def Let_def)
qed

lemma included_count:
  "included (forFiles dir maxFiles maxChars (walk join dir root maxFiles)
       \<lparr>parts = [js ''Root: '' @ dir], included = 0\<rparr>)
     = int (length (excerpts join dir root maxFiles maxChars))"
proof (cases "maxFiles \<le> 0")
  case True
  then show ?thesis by (simp add: walk_nil excerpts_def)
next
  case False
  then have "included \<lparr>parts = [js ''Root: '' @ dir], included = 0\<rparr>
      + int (length (walk join dir root maxFiles)) \<le> maxFiles"
    using walk_length [of join dir root maxFiles] by simp
  from forFiles_all [OF this] show ?thesis by (simp add: excerpts_def)
qed

lemma excerpts_length:
  "int (length (excerpts join dir root maxFiles maxChars)) \<le> max 0 maxFiles"
  using walk_length [of join dir root maxFiles]
    length_map_filter_le [of "excerptOf dir maxChars" "walk join dir root maxFiles"]
  by (simp add: excerpts_def)

lemma excerpts_text_length:
  assumes "0 \<le> maxChars"
  shows "list_all (\<lambda>e. int (length (snd e)) \<le> maxChars) (excerpts join dir root maxFiles maxChars)"
  unfolding list_all_iff excerpts_def set_map_filter
  using readSample_length [OF assms] by (auto simp: excerptOf_def)

lemma excerpts_zero_chars: "list_all (\<lambda>e. snd e = []) (excerpts join dir root maxFiles 0)"
  unfolding list_all_iff excerpts_def set_map_filter
  using readSample_zero by (auto simp: excerptOf_def)


lemma excerpt_of_yielded:
  assumes "f \<in> set (walk join dir root maxFiles)" "readSample f maxChars = Some sample"
  shows "excerptBlock (relPath dir (fst f)) sample \<in> set (summarizeParts join dir root maxFiles maxChars)"
proof -
  have "(relPath dir (fst f), sample) \<in> set (excerpts join dir root maxFiles maxChars)"
    unfolding excerpts_def set_map_filter using assms by (auto simp: excerptOf_def)
  then have "blockOf (relPath dir (fst f), sample)
      \<in> set (map blockOf (excerpts join dir root maxFiles maxChars))"
    by (simp only: set_map image_eqI)
  then show ?thesis by (simp add: summarizeParts_eq blockOf_def)
qed


lemma NO_FILES_not_header: "NO_FILES \<noteq> js ''Root: '' @ dir"
  by (simp add: NO_FILES_def js_def)

lemma NO_FILES_not_block: "NO_FILES \<noteq> blockOf e"
  by (simp add: NO_FILES_def blockOf_def excerptBlock_def js_def)














text \<open>How the summary ends, and what a block is made of.\<close>

lemma joinWith_suffix_last: "xs \<noteq> [] \<Longrightarrow> suffix (last xs) (joinWith sep xs)"
proof (induction sep xs rule: joinWith.induct)
  case (1 sep)
  then show ?case by simp
next
  case (2 sep p)
  then show ?case by simp
next
  case (3 sep p q ps)
  then have "suffix (last (q # ps)) (joinWith sep (q # ps))" by simp
  then have "suffix (last (q # ps)) ((p @ sep) @ joinWith sep (q # ps))"
    by (rule suffix_appendI)
  then show ?case by simp
qed

lemma blockOf_suffix: "suffix (js '' ---'') (blockOf e)"
  unfolding suffix_def blockOf_def excerptBlock_def
  by (rule exI [of _ "js ''\<newline>--- BEGIN FILE: '' @ fst e @ js '' ---\<newline>'' @ snd e
        @ js ''\<newline>--- END FILE: '' @ fst e"]) (simp add: js_def)

lemma last_of_suffix: "suffix a s \<Longrightarrow> a \<noteq> [] \<Longrightarrow> last s = last a"
  by (auto simp: suffix_def)

lemma summary_ends_with_marker:
  assumes "excerpts join dir root maxFiles maxChars \<noteq> []"
  shows "summarizeRepo join dir root maxFiles maxChars
           = joinWith (js ''\<newline>'')
               ((js ''Root: '' @ dir) # map blockOf (excerpts join dir root maxFiles maxChars))"
    and "endsWith (summarizeRepo join dir root maxFiles maxChars) (js '' ---'')"
    and "\<not> endsWith (summarizeRepo join dir root maxFiles maxChars) NO_FILES"
proof -
  let ?ex = "excerpts join dir root maxFiles maxChars"
  let ?ps = "(js ''Root: '' @ dir) # map blockOf ?ex"
  show eq: "summarizeRepo join dir root maxFiles maxChars = joinWith (js ''\<newline>'') ?ps"
    using assms by (simp add: summarizeRepo_def summarizeParts_eq)
  have l: "last ?ps = blockOf (last ?ex)" using assms by (simp add: last_map)
  have "suffix (last ?ps) (joinWith (js ''\<newline>'') ?ps)"
    by (rule joinWith_suffix_last) simp
  then have "suffix (blockOf (last ?ex)) (joinWith (js ''\<newline>'') ?ps)"
    by (simp only: l)
  then have "suffix (js '' ---'') (joinWith (js ''\<newline>'') ?ps)"
    by (rule suffix_order.trans [OF blockOf_suffix])
  then have s: "suffix (js '' ---'') (summarizeRepo join dir root maxFiles maxChars)"
    by (simp only: eq)
  then show "endsWith (summarizeRepo join dir root maxFiles maxChars) (js '' ---'')"
    by (simp add: endsWith_def)
  have "last (summarizeRepo join dir root maxFiles maxChars) = last (js '' ---'')"
    using s by (rule last_of_suffix) (simp add: js_def)
  moreover have "suffix NO_FILES (summarizeRepo join dir root maxFiles maxChars) \<Longrightarrow>
      last (summarizeRepo join dir root maxFiles maxChars) = last NO_FILES"
    by (rule last_of_suffix) (simp_all add: NO_FILES_def js_def)
  moreover have "last (js '' ---'') \<noteq> last NO_FILES" by (simp add: NO_FILES_def js_def)
  ultimately show "\<not> endsWith (summarizeRepo join dir root maxFiles maxChars) NO_FILES"
    by (auto simp: endsWith_def)
qed


section \<open>The claims\<close>

text \<open>
  C1. The traverser yields at most \<open>maxFiles\<close> paths: both loops stop where the counter has
  reached the cap, the outer one before it expands a directory and the inner one before
  it yields a file. The summary is the header followed by one block for each excerpt; there
  are at most \<open>maxFiles\<close> excerpts, and the text of each has at most \<open>maxCharsPerFile\<close>
  characters. A configuration has both caps at least 0.
\<close>

theorem walk_and_summary_bounded:
  "0 \<le> maxFiles \<Longrightarrow> 0 \<le> maxChars \<Longrightarrow>
     int (length (walk join dir root maxFiles)) \<le> maxFiles
   \<and> (maxFiles \<le> count st \<longrightarrow>
        whileStack join maxFiles st = st \<and> forDirents join maxFiles current es st = st)
   \<and> summarizeParts join dir root maxFiles maxChars =
        (js ''Root: '' @ dir) # map blockOf (excerpts join dir root maxFiles maxChars)
          @ (if excerpts join dir root maxFiles maxChars = [] then [NO_FILES] else [])
   \<and> int (length (excerpts join dir root maxFiles maxChars)) \<le> maxFiles
   \<and> list_all (\<lambda>e. int (length (snd e)) \<le> maxChars) (excerpts join dir root maxFiles maxChars)"
  using walk_length [of join dir root maxFiles]
    excerpts_length [of join dir root maxFiles maxChars]
    excerpts_text_length [of maxChars join dir root maxFiles]
    summarizeParts_eq [of join dir root maxFiles maxChars]
  by (simp add: whileStack_break forDirents_break)

theorem walk_and_summary_bounded_witness:
  "(0::int) \<le> 2 \<and> (0::int) \<le> 3
   \<and> int (length (walk posixJoin (js ''/r'') demoTree 2)) \<le> 2
   \<and> 2 \<le> count \<lparr>stack = [(js ''/r'', demoTree)], count = 2, yielded = []\<rparr>
   \<and> whileStack posixJoin 2 \<lparr>stack = [(js ''/r'', demoTree)], count = 2, yielded = []\<rparr>
       = \<lparr>stack = [(js ''/r'', demoTree)], count = 2, yielded = []\<rparr>
   \<and> int (length (excerpts posixJoin (js ''/r'') demoTree 2 3)) \<le> 2
   \<and> list_all (\<lambda>e. int (length (snd e)) \<le> 3) (excerpts posixJoin (js ''/r'') demoTree 2 3)
   \<and> map fst (walk posixJoin (js ''/r'') demoTree 2) = [js ''/r/a.txt'', js ''/r/img.png'']
   \<and> excerpts posixJoin (js ''/r'') demoTree 2 3 = [(js ''a.txt'', js ''hel'')]"
proof -
  have v: "map fst (walk posixJoin (js ''/r'') demoTree 2) = [js ''/r/a.txt'', js ''/r/img.png'']"
    "excerpts posixJoin (js ''/r'') demoTree 2 3 = [(js ''a.txt'', js ''hel'')]"
    by code_simp+
  show ?thesis
    using walk_and_summary_bounded [of 2 3 posixJoin "js ''/r''" demoTree
        "\<lparr>stack = [(js ''/r'', demoTree)], count = 2, yielded = []\<rparr>"] v
    by simp
qed




text \<open>
  C3. The code classifies a path as binary exactly when the specification's rule does: the
  substring from the last dot of the basename, lowercased, is a member of the extension
  set. The node at the path plays no part: a binary path has no sample and no excerpt,
  whatever the file holds, and the excerpts of a scan come from the paths that are not
  binary. A basename without a dot has no extension and is never binary.
\<close>

theorem isBinaryByExt_extension_only:
  "isBinaryByExt path = binaryBySpec path
   \<and> (binaryBySpec path \<longrightarrow>
        readSample (path, node) maxChars = None \<and> excerptOf dir maxChars (path, node) = None)
   \<and> (of_char CHR ''.'' \<notin> set (basename path) \<longrightarrow>
        extension path = None \<and> \<not> isBinaryByExt path)
   \<and> excerpts join dir root maxFiles maxChars
       = List.map_filter (excerptOf dir maxChars)
           (filter (\<lambda>f. \<not> binaryBySpec (fst f)) (walk join dir root maxFiles))"
proof -
  have a: "binaryBySpec path \<longrightarrow>
        readSample (path, node) maxChars = None \<and> excerptOf dir maxChars (path, node) = None"
    by (simp add: excerptOf_def readSample_binary isBinaryByExt_spec)
  have b: "of_char CHR ''.'' \<notin> set (basename path) \<longrightarrow>
        extension path = None \<and> \<not> isBinaryByExt path"
    using extension_nodot [of path] binaryBySpec_nodot [of path]
    by (simp add: isBinaryByExt_spec del: of_char_Char)
  have "\<And>f. \<not> \<not> binaryBySpec (fst f) \<Longrightarrow> excerptOf dir maxChars f = None"
    by (simp add: excerptOf_def readSample_def isBinaryByExt_spec)
  then have c: "excerpts join dir root maxFiles maxChars
       = List.map_filter (excerptOf dir maxChars)
           (filter (\<lambda>f. \<not> binaryBySpec (fst f)) (walk join dir root maxFiles))"
    unfolding excerpts_def
    using map_filter_filter [of "walk join dir root maxFiles" "\<lambda>f. \<not> binaryBySpec (fst f)"
        "excerptOf dir maxChars"]
    by simp
  show ?thesis using a b c isBinaryByExt_spec [of path] by (simp del: of_char_Char)
qed

theorem isBinaryByExt_extension_only_witness:
  "binaryBySpec (js ''/r/Photo.PNG'')
   \<and> isBinaryByExt (js ''/r/Photo.PNG'')
   \<and> extension (js ''/r/Photo.PNG'') = Some (js ''.PNG'')
   \<and> readSample (js ''/r/Photo.PNG'', File (Some (js ''plain text''))) 100 = None
   \<and> excerptOf (js ''/r'') 100 (js ''/r/Photo.PNG'', File (Some (js ''plain text''))) = None
   \<and> of_char CHR ''.'' \<notin> set (basename (js ''/r/v1.exe/notes''))
   \<and> extension (js ''/r/v1.exe/notes'') = None
   \<and> \<not> isBinaryByExt (js ''/r/v1.exe/notes'')"
proof -
  have v: "binaryBySpec (js ''/r/Photo.PNG'')"
    "extension (js ''/r/Photo.PNG'') = Some (js ''.PNG'')"
    "of_char CHR ''.'' \<notin> set (basename (js ''/r/v1.exe/notes''))"
    by code_simp+
  have t1: "isBinaryByExt (js ''/r/Photo.PNG'')
      \<and> readSample (js ''/r/Photo.PNG'', File (Some (js ''plain text''))) 100 = None
      \<and> excerptOf (js ''/r'') 100 (js ''/r/Photo.PNG'', File (Some (js ''plain text''))) = None"
    using isBinaryByExt_extension_only [of "js ''/r/Photo.PNG''" "File (Some (js ''plain text''))"
        100 "js ''/r''" posixJoin Missing 0] v(1)
    by blast
  have t2: "extension (js ''/r/v1.exe/notes'') = None \<and> \<not> isBinaryByExt (js ''/r/v1.exe/notes'')"
    using isBinaryByExt_extension_only [of "js ''/r/v1.exe/notes''" Missing 0 "[]" posixJoin Missing 0] v(3)
    by blast
  show ?thesis using t1 t2 v by blast
qed

text \<open>
  C4, as amended. For a readable file whose path is not binary and a cap of at least 0,
  the sample is the first \<open>maxChars\<close> UTF-16 code units of the decoded text
  (\<^verbatim>\<open>text.slice(0, maxChars)\<close>), never more than \<open>maxChars\<close> of them. It is the truncation
  counted in code points when the text has no high surrogate, that is no character outside
  the Basic Multilingual Plane. A file holding \<^verbatim>\<open>hello\<close> sampled with 3 gives \<^verbatim>\<open>hel\<close>.
\<close>

theorem readSample_truncates_code_units:
  "\<not> isBinaryByExt path \<Longrightarrow> 0 \<le> maxChars \<Longrightarrow>
     readSample (path, File (Some text)) maxChars = Some (take (nat maxChars) text)
   \<and> int (length (take (nat maxChars) text)) \<le> maxChars
   \<and> (list_all (\<lambda>u. \<not> isHighSurrogate u) text \<longrightarrow>
        take (nat maxChars) text = takeCodePoints (nat maxChars) text)
   \<and> readSample (js ''a.txt'', File (Some (js ''hello''))) 3 = Some (js ''hel'')"
proof -
  assume a: "\<not> isBinaryByExt path" "0 \<le> maxChars"
  have h: "readSample (js ''a.txt'', File (Some (js ''hello''))) 3 = Some (js ''hel'')"
    by code_simp
  show ?thesis
    using a h by (simp add: readSample_def slice_take takeCodePoints_take)
qed

theorem readSample_truncates_code_units_witness:
  "\<not> isBinaryByExt (js ''/r/a.txt'') \<and> (0::int) \<le> 3
   \<and> readSample (js ''/r/a.txt'', File (Some (js ''hello''))) 3 = Some (take (nat 3) (js ''hello''))
   \<and> take (nat 3) (js ''hello'') = js ''hel''
   \<and> list_all (\<lambda>u. \<not> isHighSurrogate u) (js ''hello'')
   \<and> take (nat 3) (js ''hello'') = takeCodePoints (nat 3) (js ''hello'')"
proof -
  have v: "\<not> isBinaryByExt (js ''/r/a.txt'')" "list_all (\<lambda>u. \<not> isHighSurrogate u) (js ''hello'')"
    "take (nat 3) (js ''hello'') = js ''hel''"
    by code_simp+
  show ?thesis
    using readSample_truncates_code_units [of "js ''/r/a.txt''" 3 "js ''hello''"] v
    by simp
qed

theorem readSample_splits_surrogate_pair:
  "\<not> isBinaryByExt (js ''/r/smile.txt'')
   \<and> readSample (js ''/r/smile.txt'', File (Some [0xD83D, 0xDE00])) 1 = Some [0xD83D]
   \<and> takeCodePoints 1 [0xD83D, 0xDE00] = [0xD83D, 0xDE00]"
  by code_simp

text \<open>
  C5. Every call into the file system is guarded, and its failure is a value the loops
  handle: a directory whose listing fails is popped and the loop goes on with the rest of
  the stack, exactly as for a directory with no entries; an entry that cannot be classified
  is passed over; a file that cannot be read has no sample and no excerpt. The scan is a
  total function: for every tree, whatever fails in it, the result is the header followed
  by the blocks of the excerpts, or by the fixed line when there are none.
\<close>

theorem failures_are_skipped:
  "(readdir cnode = None \<and> count st < maxFiles \<and> stack st = (current, cnode) # rest \<longrightarrow>
      whileStack join maxFiles st = whileStack join maxFiles (st\<lparr>stack := rest\<rparr>))
   \<and> yielded (whileStack join maxFiles (st\<lparr>stack := (current, Directory None) # rest\<rparr>))
       = yielded (whileStack join maxFiles (st\<lparr>stack := (current, Directory (Some [])) # rest\<rparr>))
   \<and> (statSync child = None \<longrightarrow>
        forDirents join maxFiles current ((name, child) # es) st
          = forDirents join maxFiles current es st)
   \<and> (readFileSync (snd f) = None \<longrightarrow>
        readSample f maxChars = None \<and> excerptOf dir maxChars f = None)
   \<and> summarizeRepo join dir root maxFiles maxChars
       = joinWith (js ''\<newline>'')
           ((js ''Root: '' @ dir) # map blockOf (excerpts join dir root maxFiles maxChars)
              @ (if excerpts join dir root maxFiles maxChars = [] then [NO_FILES] else []))"
  using whileStack_unlistable [where cnode = cnode and st = st and maxFiles = maxFiles
      and current = current and rest = rest and join = join]
    whileStack_unlistable_as_empty [where join = join and maxFiles = maxFiles and st = st
      and current = current and rest = rest]
    forDirents_unclassified [where child = child and join = join and maxFiles = maxFiles
      and current = current and name = name and es = es and st = st]
    readSample_unreadable [where f = f and maxChars = maxChars]
  by (simp add: summarizeRepo_def summarizeParts_eq excerptOf_def)

theorem failures_are_skipped_witness:
  "readdir (Directory None) = None
   \<and> count \<lparr>stack = [(js ''/r/locked'', Directory None), (js ''/r/sub'', Directory (Some []))],
        count = 0, yielded = []\<rparr> < 10
   \<and> stack \<lparr>stack = [(js ''/r/locked'', Directory None), (js ''/r/sub'', Directory (Some []))],
        count = 0, yielded = []\<rparr>
       = (js ''/r/locked'', Directory None) # [(js ''/r/sub'', Directory (Some []))]
   \<and> whileStack posixJoin 10
        \<lparr>stack = [(js ''/r/locked'', Directory None), (js ''/r/sub'', Directory (Some []))],
         count = 0, yielded = []\<rparr>
       = whileStack posixJoin 10
           \<lparr>stack = [(js ''/r/sub'', Directory (Some []))], count = 0, yielded = []\<rparr>
   \<and> statSync Missing = None
   \<and> forDirents posixJoin 10 (js ''/r/sub'') [(js ''gone'', Missing)]
        \<lparr>stack = [], count = 0, yielded = []\<rparr>
       = forDirents posixJoin 10 (js ''/r/sub'') [] \<lparr>stack = [], count = 0, yielded = []\<rparr>
   \<and> readFileSync (snd (js ''/r/sub/secret.txt'', File None)) = None
   \<and> readSample (js ''/r/sub/secret.txt'', File None) 100 = None
   \<and> summarizeRepo posixJoin (js ''/r'') demoTree 10 3
       = js ''Root: /r\<newline>\<newline>--- BEGIN FILE: a.txt ---\<newline>hel\<newline>--- END FILE: a.txt ---\<newline>\<newline>--- BEGIN FILE: sub/b.ts ---\<newline>let\<newline>--- END FILE: sub/b.ts ---''"
proof -
  let ?st = "\<lparr>stack = [(js ''/r/locked'', Directory None), (js ''/r/sub'', Directory (Some []))],
        count = 0, yielded = []\<rparr>"
  have t1: "whileStack posixJoin 10 ?st
       = whileStack posixJoin 10 (?st\<lparr>stack := [(js ''/r/sub'', Directory (Some []))]\<rparr>)"
    using failures_are_skipped [where cnode = "Directory None" and st = ?st
        and current = "js ''/r/locked''" and rest = "[(js ''/r/sub'', Directory (Some []))]"
        and join = posixJoin and maxFiles = 10]
    by simp
  have t2: "forDirents posixJoin 10 (js ''/r/sub'') [(js ''gone'', Missing)]
        \<lparr>stack = [], count = 0, yielded = []\<rparr>
       = forDirents posixJoin 10 (js ''/r/sub'') [] \<lparr>stack = [], count = 0, yielded = []\<rparr>
     \<and> readSample (js ''/r/sub/secret.txt'', File None) 100 = None"
    using failures_are_skipped [where st = "\<lparr>stack = [], count = 0, yielded = []\<rparr>"
        and current = "js ''/r/sub''" and join = posixJoin and maxFiles = 10 and child = Missing
        and name = "js ''gone''" and es = "[]" and f = "(js ''/r/sub/secret.txt'', File None)"
        and maxChars = 100]
    by simp
  have v: "summarizeRepo posixJoin (js ''/r'') demoTree 10 3
       = js ''Root: /r\<newline>\<newline>--- BEGIN FILE: a.txt ---\<newline>hel\<newline>--- END FILE: a.txt ---\<newline>\<newline>--- BEGIN FILE: sub/b.ts ---\<newline>let\<newline>--- END FILE: sub/b.ts ---''"
    by code_simp
  show ?thesis using t1 t2 v by simp
qed

text \<open>
  C6, as amended. The counter \<^verbatim>\<open>included\<close> ends as the number of excerpts. When it is zero
  the summary is the header line followed by the fixed line, and has no block. When at
  least one file is included the fixed line is not appended: the summary is the header
  joined with the blocks and nothing more, so it ends with the end marker of the last block
  and not with the fixed line. The text of an included file is pasted as it is; the
  statement does not say that no line of it reads like the fixed line.
\<close>

theorem sentinel_appended_iff_no_excerpts:
  "included (forFiles dir maxFiles maxChars (walk join dir root maxFiles)
       \<lparr>parts = [js ''Root: '' @ dir], included = 0\<rparr>)
     = int (length (excerpts join dir root maxFiles maxChars))
   \<and> (excerpts join dir root maxFiles maxChars = [] \<longrightarrow>
        summarizeParts join dir root maxFiles maxChars = [js ''Root: '' @ dir, NO_FILES]
      \<and> summarizeRepo join dir root maxFiles maxChars
          = js ''Root: '' @ dir @ js ''\<newline>No readable source files found.'')
   \<and> (excerpts join dir root maxFiles maxChars \<noteq> [] \<longrightarrow>
        summarizeRepo join dir root maxFiles maxChars
          = joinWith (js ''\<newline>'')
              ((js ''Root: '' @ dir) # map blockOf (excerpts join dir root maxFiles maxChars))
      \<and> endsWith (summarizeRepo join dir root maxFiles maxChars) (js '' ---'')
      \<and> \<not> endsWith (summarizeRepo join dir root maxFiles maxChars) NO_FILES
      \<and> NO_FILES \<notin> set (summarizeParts join dir root maxFiles maxChars))"
proof -
  have z: "excerpts join dir root maxFiles maxChars = [] \<longrightarrow>
        summarizeParts join dir root maxFiles maxChars = [js ''Root: '' @ dir, NO_FILES]
      \<and> summarizeRepo join dir root maxFiles maxChars
          = js ''Root: '' @ dir @ js ''\<newline>No readable source files found.''"
    by (simp add: summarizeRepo_def summarizeParts_eq NO_FILES_def js_def)
  have n: "excerpts join dir root maxFiles maxChars \<noteq> [] \<longrightarrow>
      NO_FILES \<notin> set (summarizeParts join dir root maxFiles maxChars)"
    using NO_FILES_not_header [of dir] NO_FILES_not_block
    by (auto simp: summarizeParts_eq)
  show ?thesis
    using included_count [of dir maxFiles maxChars join root] z n
      summary_ends_with_marker [of join dir root maxFiles maxChars]
    by blast
qed

theorem sentinel_appended_iff_no_excerpts_witness:
  "excerpts posixJoin (js ''/r'') binaryOnlyTree 10 100 = []
   \<and> summarizeRepo posixJoin (js ''/r'') binaryOnlyTree 10 100
       = js ''Root: /r\<newline>No readable source files found.''
   \<and> excerpts posixJoin (js ''/r'') demoTree 10 3 \<noteq> []
   \<and> summarizeRepo posixJoin (js ''/r'') demoTree 10 3
       = joinWith (js ''\<newline>'')
           ((js ''Root: '' @ js ''/r'') # map blockOf (excerpts posixJoin (js ''/r'') demoTree 10 3))
   \<and> summarizeRepo posixJoin (js ''/r'') demoTree 10 3
       = js ''Root: /r\<newline>\<newline>--- BEGIN FILE: a.txt ---\<newline>hel\<newline>--- END FILE: a.txt ---\<newline>\<newline>--- BEGIN FILE: sub/b.ts ---\<newline>let\<newline>--- END FILE: sub/b.ts ---''
   \<and> endsWith (summarizeRepo posixJoin (js ''/r'') demoTree 10 3) (js '' ---'')
   \<and> \<not> endsWith (summarizeRepo posixJoin (js ''/r'') demoTree 10 3) NO_FILES
   \<and> NO_FILES \<notin> set (summarizeParts posixJoin (js ''/r'') demoTree 10 3)"
proof -
  have v: "excerpts posixJoin (js ''/r'') binaryOnlyTree 10 100 = []"
    "excerpts posixJoin (js ''/r'') demoTree 10 3 = [(js ''a.txt'', js ''hel''), (js ''sub/b.ts'', js ''let'')]"
    "summarizeRepo posixJoin (js ''/r'') demoTree 10 3
       = js ''Root: /r\<newline>\<newline>--- BEGIN FILE: a.txt ---\<newline>hel\<newline>--- END FILE: a.txt ---\<newline>\<newline>--- BEGIN FILE: sub/b.ts ---\<newline>let\<newline>--- END FILE: sub/b.ts ---''"
    by code_simp+
  have ne: "excerpts posixJoin (js ''/r'') demoTree 10 3 \<noteq> []" using v(2) by simp
  have t1: "summarizeRepo posixJoin (js ''/r'') binaryOnlyTree 10 100
       = js ''Root: '' @ js ''/r'' @ js ''\<newline>No readable source files found.''"
    using sentinel_appended_iff_no_excerpts [where join = posixJoin and dir = "js ''/r''"
        and root = binaryOnlyTree and maxFiles = 10 and maxChars = 100] v(1)
    by blast
  have j: "js ''Root: '' @ js ''/r'' @ js ''\<newline>No readable source files found.''
       = js ''Root: /r\<newline>No readable source files found.''"
    by (simp add: js_def)
  have c2: "summarizeRepo posixJoin (js ''/r'') binaryOnlyTree 10 100
       = js ''Root: /r\<newline>No readable source files found.''"
    by (simp only: t1 j)
  note t = sentinel_appended_iff_no_excerpts [where join = posixJoin and dir = "js ''/r''"
        and root = demoTree and maxFiles = 10 and maxChars = 3]
  have c4: "summarizeRepo posixJoin (js ''/r'') demoTree 10 3
       = joinWith (js ''\<newline>'')
           ((js ''Root: '' @ js ''/r'') # map blockOf (excerpts posixJoin (js ''/r'') demoTree 10 3))"
    using t ne by blast
  have c6: "endsWith (summarizeRepo posixJoin (js ''/r'') demoTree 10 3) (js '' ---'')"
    using t ne by blast
  have c7: "\<not> endsWith (summarizeRepo posixJoin (js ''/r'') demoTree 10 3) NO_FILES"
    using t ne by blast
  have c8: "NO_FILES \<notin> set (summarizeParts posixJoin (js ''/r'') demoTree 10 3)"
    using t ne by blast
  show ?thesis by (intro conjI) (rule v(1) c2 ne c4 v(3) c6 c7 c8)+
qed

theorem sentinel_line_in_sample_counterexample:
  "excerpts posixJoin (js ''/r'') sentinelTree 10 100
       = [(js ''note.txt'', js ''No readable source files found.'')]
   \<and> included (forFiles (js ''/r'') 10 100 (walk posixJoin (js ''/r'') sentinelTree 10)
        \<lparr>parts = [js ''Root: '' @ js ''/r''], included = 0\<rparr>) = 1
   \<and> summarizeRepo posixJoin (js ''/r'') sentinelTree 10 100
       = js ''Root: /r\<newline>\<newline>--- BEGIN FILE: note.txt ---\<newline>No readable source files found.\<newline>--- END FILE: note.txt ---''
   \<and> js ''No readable source files found.''
       \<in> set (linesOf (summarizeRepo posixJoin (js ''/r'') sentinelTree 10 100))"
  by code_simp




text \<open>
  C8. With \<open>maxFiles = 0\<close> the traverser yields nothing, whatever the tree, and the summary is
  the header and the fixed line. With \<open>maxCharsPerFile = 0\<close> the text of every excerpt is the
  empty string, and the summary has its usual form. Both scans are values of total
  functions: nothing fails.
\<close>

theorem zero_caps:
  "walk join dir root 0 = []
   \<and> excerpts join dir root 0 maxChars = []
   \<and> summarizeRepo join dir root 0 maxChars
       = js ''Root: '' @ dir @ js ''\<newline>No readable source files found.''
   \<and> list_all (\<lambda>e. snd e = []) (excerpts join dir root maxFiles 0)
   \<and> summarizeParts join dir root maxFiles 0
       = (js ''Root: '' @ dir) # map blockOf (excerpts join dir root maxFiles 0)
           @ (if excerpts join dir root maxFiles 0 = [] then [NO_FILES] else [])"
proof -
  have w: "walk join dir root 0 = []" by (simp add: walk_nil)
  then have e: "excerpts join dir root 0 maxChars = []" by (simp add: excerpts_def)
  have "summarizeRepo join dir root 0 maxChars
       = js ''Root: '' @ dir @ js ''\<newline>No readable source files found.''"
    using e by (simp add: summarizeRepo_def summarizeParts_eq NO_FILES_def js_def)
  then show ?thesis
    using w e excerpts_zero_chars [of join dir root maxFiles]
      summarizeParts_eq [of join dir root maxFiles 0]
    by simp
qed

theorem zero_caps_witness:
  "walk posixJoin (js ''/r'') demoTree 0 = []
   \<and> summarizeRepo posixJoin (js ''/r'') demoTree 0 100
       = js ''Root: /r\<newline>No readable source files found.''
   \<and> list_all (\<lambda>e. snd e = []) (excerpts posixJoin (js ''/r'') demoTree 10 0)
   \<and> excerpts posixJoin (js ''/r'') demoTree 10 0 = [(js ''a.txt'', []), (js ''sub/b.ts'', [])]"
proof -
  have v: "excerpts posixJoin (js ''/r'') demoTree 10 0 = [(js ''a.txt'', []), (js ''sub/b.ts'', [])]"
    by code_simp
  have j: "js ''Root: '' @ js ''/r'' @ js ''\<newline>No readable source files found.''
       = js ''Root: /r\<newline>No readable source files found.''"
    by (simp add: js_def)
  note t = zero_caps [where join = posixJoin and dir = "js ''/r''" and root = demoTree
      and maxChars = 100 and maxFiles = 10]
  have c1: "walk posixJoin (js ''/r'') demoTree 0 = []" using t by blast
  have c2: "summarizeRepo posixJoin (js ''/r'') demoTree 0 100
       = js ''Root: /r\<newline>No readable source files found.''"
    using t j by simp
  have c3: "list_all (\<lambda>e. snd e = []) (excerpts posixJoin (js ''/r'') demoTree 10 0)"
    using t by blast
  show ?thesis by (intro conjI) (rule c1 c2 c3 v)+
qed

text \<open>
  C9. The ignore filter is applied to the names of a listing only. A root whose own
  basename is in the ignore set is listed like any other: the traverser yields first the
  regular files among the entries of the root that the filter lets through, in listing
  order, as many as the cap allows; each of them that has a sample has its block in the
  summary.
\<close>

theorem ignored_root_is_scanned:
  "basename dir \<in> DEFAULT_IGNORES \<Longrightarrow>
     prefix (take (nat maxFiles) (entryFiles join dir es))
       (walk join dir (Directory (Some es)) maxFiles)
   \<and> list_all
       (\<lambda>f. case readSample f maxChars of
               None \<Rightarrow> True
             | Some sample \<Rightarrow>
                 excerptBlock (relPath dir (fst f)) sample
                   \<in> set (summarizeParts join dir (Directory (Some es)) maxFiles maxChars))
       (take (nat maxFiles) (entryFiles join dir es))"
proof -
  have p: "prefix (take (nat maxFiles) (entryFiles join dir es))
       (walk join dir (Directory (Some es)) maxFiles)"
    by (rule walk_root_listing)
  then have "set (take (nat maxFiles) (entryFiles join dir es))
      \<subseteq> set (walk join dir (Directory (Some es)) maxFiles)"
    by (rule set_mono_prefix)
  then have "list_all
       (\<lambda>f. case readSample f maxChars of
               None \<Rightarrow> True
             | Some sample \<Rightarrow>
                 excerptBlock (relPath dir (fst f)) sample
                   \<in> set (summarizeParts join dir (Directory (Some es)) maxFiles maxChars))
       (take (nat maxFiles) (entryFiles join dir es))"
    unfolding list_all_iff using excerpt_of_yielded [of _ join dir "Directory (Some es)" maxFiles maxChars]
    by (auto split: option.split)
  with p show ?thesis by simp
qed

theorem ignored_root_is_scanned_witness:
  "basename (js ''/work/build'') \<in> DEFAULT_IGNORES
   \<and> prefix (take (nat 10) (entryFiles posixJoin (js ''/work/build'') buildRootEntries))
       (walk posixJoin (js ''/work/build'') (Directory (Some buildRootEntries)) 10)
   \<and> map fst (take (nat 10) (entryFiles posixJoin (js ''/work/build'') buildRootEntries))
       = [js ''/work/build/main.ts'']
   \<and> map fst (walk posixJoin (js ''/work/build'') (Directory (Some buildRootEntries)) 10)
       = [js ''/work/build/main.ts'', js ''/work/build/lib/util.ts'']
   \<and> summarizeRepo posixJoin (js ''/work/build'') (Directory (Some buildRootEntries)) 10 100
       = js ''Root: /work/build\<newline>\<newline>--- BEGIN FILE: main.ts ---\<newline>let x\<newline>--- END FILE: main.ts ---\<newline>\<newline>--- BEGIN FILE: lib/util.ts ---\<newline>let u\<newline>--- END FILE: lib/util.ts ---''"
proof -
  have v: "basename (js ''/work/build'') \<in> DEFAULT_IGNORES"
    "map fst (take (nat 10) (entryFiles posixJoin (js ''/work/build'') buildRootEntries))
       = [js ''/work/build/main.ts'']"
    "map fst (walk posixJoin (js ''/work/build'') (Directory (Some buildRootEntries)) 10)
       = [js ''/work/build/main.ts'', js ''/work/build/lib/util.ts'']"
    "summarizeRepo posixJoin (js ''/work/build'') (Directory (Some buildRootEntries)) 10 100
       = js ''Root: /work/build\<newline>\<newline>--- BEGIN FILE: main.ts ---\<newline>let x\<newline>--- END FILE: main.ts ---\<newline>\<newline>--- BEGIN FILE: lib/util.ts ---\<newline>let u\<newline>--- END FILE: lib/util.ts ---''"
    by code_simp+
  have c: "prefix (take (nat 10) (entryFiles posixJoin (js ''/work/build'') buildRootEntries))
       (walk posixJoin (js ''/work/build'') (Directory (Some buildRootEntries)) 10)"
    using ignored_root_is_scanned [OF v(1), where maxFiles = 10 and join = posixJoin
        and es = buildRootEntries and maxChars = 100]
    by (rule conjunct1)
  show ?thesis by (intro conjI) (rule v c)+
qed

text \<open>
  C10. The counter of the traverser is the number of its yields; whether a yielded file is
  later sampled plays no part in it. In the tree \<open>budgetTree\<close> the listing has \<^verbatim>\<open>img.png\<close>
  before the readable text file \<^verbatim>\<open>notes.txt\<close>: a scan with \<open>maxFiles = 1\<close> yields the image
  alone, skips it as binary, and returns the summary with no block.
\<close>

theorem skipped_files_use_budget:
  "count (whileStack join maxFiles \<lparr>stack = [(dir, root)], count = 0, yielded = []\<rparr>)
     = int (length (walk join dir root maxFiles))
   \<and> map fst (walk posixJoin (js ''/r'') budgetTree 1) = [js ''/r/img.png'']
   \<and> readSample (js ''/r/img.png'', File (Some (js ''PNG''))) 100 = None
   \<and> readSample (js ''/r/notes.txt'', File (Some (js ''hello''))) 100 = Some (js ''hello'')
   \<and> excerpts posixJoin (js ''/r'') budgetTree 1 100 = []
   \<and> summarizeRepo posixJoin (js ''/r'') budgetTree 1 100
       = js ''Root: /r\<newline>No readable source files found.''
   \<and> map fst (excerpts posixJoin (js ''/r'') budgetTree 2 100) = [js ''notes.txt'']"
proof -
  have g: "count (whileStack join maxFiles \<lparr>stack = [(dir, root)], count = 0, yielded = []\<rparr>)
     = int (length (walk join dir root maxFiles))"
    using walkOk_whileStack [of maxFiles "\<lparr>stack = [(dir, root)], count = 0, yielded = []\<rparr>" join]
    by (simp add: walkOk_def walk_def)
  have v: "map fst (walk posixJoin (js ''/r'') budgetTree 1) = [js ''/r/img.png'']"
    "readSample (js ''/r/img.png'', File (Some (js ''PNG''))) 100 = None"
    "readSample (js ''/r/notes.txt'', File (Some (js ''hello''))) 100 = Some (js ''hello'')"
    "excerpts posixJoin (js ''/r'') budgetTree 1 100 = []"
    "summarizeRepo posixJoin (js ''/r'') budgetTree 1 100
       = js ''Root: /r\<newline>No readable source files found.''"
    "map fst (excerpts posixJoin (js ''/r'') budgetTree 2 100) = [js ''notes.txt'']"
    by code_simp+
  show ?thesis using g v by simp
qed

end
